theory Spec2Isabelle
  imports Complex_Main "HOL-Library.Log_Nat"
begin

section \<open>Event overlay rendering: \<open>event_detector/event_visualizer.py\<close>\<close>

text \<open>
  A shallow embedding of the class \<open>EventVisualizer\<close>. The instance is a record that is
  passed in and returned; a raised exception is the left summand of a sum type; the
  frame buffer that OpenCV mutates in place is the term of the OpenCV calls applied to it.
  Python integers are \<open>int\<close>. A Python float is the rational number it denotes, and every
  float operation rounds its exact result to the nearest double, ties to even.
\<close>

subsection \<open>Events\<close>

text \<open>
  Modelled from the spec: the module \<open>events.py\<close> (classes \<open>Event\<close>, \<open>PassEvent\<close>,
  \<open>PressureEvent\<close>, \<open>PossessionChangeEvent\<close>) is imported by the visualizer and is not part
  of the sources. The fields are those of the data model: every event has \<open>start_frame\<close>,
  \<open>end_frame\<close> and \<open>description\<close>; a pass has a passer and a nullable receiver; a pressure
  event has two players and an intensity; a possession change has two teams.
\<close>

record event_common =
  start_frame :: int
  end_frame :: int
  description :: string

record pass_event = event_common +
  passer_id :: int
  receiver_id :: "int option"

record pressure_event = event_common +
  pressuring_player_id :: int
  pressured_player_id :: int
  pressure_intensity :: rat

record possession_change_event = event_common +
  previous_team :: int
  new_team :: int

datatype event =
  PassEvent pass_event
| PressureEvent pressure_event
| PossessionChangeEvent possession_change_event

subsection \<open>Tracking table\<close>

text \<open>
  Modelled from the spec: \<open>tracks["players"]\<close> maps a frame index to a mapping from player
  identifier to a record with a 2D \<open>position\<close>. A failed subscript raises \<open>KeyError\<close> (or
  \<open>IndexError\<close> for a list of frames); both are \<open>LookupError\<close>. The coordinates are
  numbers (Python integers or finite doubles), which \<open>int\<close> truncates exactly.
\<close>

record track =
  position :: "rat \<times> rat"

type_synonym players_table = "int \<rightharpoonup> (int \<rightharpoonup> track)"

datatype error = LookupError | ZeroDivisionError | OverflowError

definition lookup_frame :: "players_table \<Rightarrow> int \<Rightarrow> error + (int \<rightharpoonup> track)" where
  "lookup_frame players f = (case players f of None \<Rightarrow> Inl LookupError | Some row \<Rightarrow> Inr row)"

definition lookup_player :: "players_table \<Rightarrow> int \<Rightarrow> int \<Rightarrow> error + track" where
  "lookup_player players f pid =
     (case lookup_frame players f of
        Inl e \<Rightarrow> Inl e
      | Inr row \<Rightarrow> (case row pid of None \<Rightarrow> Inl LookupError | Some t \<Rightarrow> Inr t))"

subsection \<open>Python floats\<close>

text \<open>
  Rounding to the nearest integer, ties to the even one.
\<close>

definition round_half_even :: "rat \<Rightarrow> int" where
  "round_half_even x =
     (let f = \<lfloor>x\<rfloor>; r = x - rat_of_int f
      in if r < 1 / 2 then f else if 1 / 2 < r then f + 1 else if even f then f else f + 1)"

text \<open>
  The binary exponent of a positive rational \<open>a\<close>: the \<open>e\<close> with \<open>2^e \<le> a < 2^(e+1)\<close>
  (lemma \<open>exponent_bounds\<close>), from the bit length of \<open>\<lfloor>a\<rfloor>\<close> or of \<open>\<lceil>1/a\<rceil> - 1\<close>.
\<close>

definition exponent :: "rat \<Rightarrow> int" where
  "exponent a = (if 1 \<le> a then bitlen \<lfloor>a\<rfloor> - 1 else - bitlen (\<lceil>1 / a\<rceil> - 1))"

text \<open>
  The double nearest to a rational (IEEE 754 binary64, round to nearest, ties to even):
  53 significant bits, the spacing of the subnormals below \<open>2^-1022\<close>. The exponent is
  not bounded above here: a result of magnitude \<open>2^1024\<close> or more is one that overflows.
  A rational that is not a double stands for the double nearest to it, as a decimal
  literal does: the float field \<open>pressure_intensity\<close> of an input is read through
  \<open>to_double\<close>.
\<close>

definition to_double :: "rat \<Rightarrow> rat" where
  "to_double x =
     (if x = 0 then 0
      else (let a = \<bar>x\<bar>;
                e = max (exponent a) (- 1022);
                u = 2 powi (e - 52)
            in sgn x * rat_of_int (round_half_even (a / u)) * u))"

text \<open>The rounded result is infinite: its magnitude is \<open>2^1024\<close> or more (lemma \<open>overflows_iff\<close>).\<close>

definition overflows :: "rat \<Rightarrow> bool" where
  "overflows y = (y \<noteq> 0 \<and> 1024 \<le> exponent \<bar>y\<bar>)"

subsection \<open>Python primitives\<close>

text \<open>\<open>int(x)\<close> of a finite float truncates towards zero.\<close>

definition py_int :: "'a::floor_ceiling \<Rightarrow> int" where
  "py_int x = (if 0 \<le> x then \<lfloor>x\<rfloor> else \<lceil>x\<rceil>)"

text \<open>\<open>int(x)\<close> of a float \<open>x\<close>: an infinite one raises \<open>OverflowError\<close>.\<close>

definition float_to_int :: "rat \<Rightarrow> error + int" where
  "float_to_int y = (if overflows y then Inl OverflowError else Inr (py_int y))"

text \<open>Truthiness of an optional integer identifier: \<open>None\<close> and \<open>0\<close> are falsy.\<close>

fun truthy :: "int option \<Rightarrow> bool" where
  "truthy None = False"
| "truthy (Some i) = (i \<noteq> 0)"

text \<open>\<open>str\<close> of an integer and of an optional integer, as used by the f-strings.\<close>

definition digit_char :: "nat \<Rightarrow> char" where
  "digit_char d = ''0123456789'' ! d"

fun str_nat :: "nat \<Rightarrow> string" where
  "str_nat n = (if n < 10 then [digit_char n] else str_nat (n div 10) @ [digit_char (n mod 10)])"

declare str_nat.simps [simp del]

definition str_int :: "int \<Rightarrow> string" where
  "str_int i = (if i < 0 then CHR ''-'' # str_nat (nat (- i)) else str_nat (nat i))"

fun str_opt :: "int option \<Rightarrow> string" where
  "str_opt None = ''None''"
| "str_opt (Some i) = str_int i"

text \<open>The character U+2192 (rightwards arrow) of the banner texts, in UTF-8.\<close>

definition arrow_char :: string where
  "arrow_char = [CHR 0xE2, CHR 0x86, CHR 0x92]"

subsection \<open>Frames and the OpenCV calls\<close>

type_synonym point = "int \<times> int"
type_synonym color = "int \<times> int \<times> int"

text \<open>
  A frame is either the raw buffer handed in by the caller (height, width, pixel data) or
  the result of an OpenCV drawing call on a frame. \<open>AddWeighted src1 alpha src2 beta gamma\<close>
  is the blend written back into the buffer of \<open>src2\<close>.
\<close>

datatype image =
  Raw int int "int list"
| Rectangle image point point color int
| AddWeighted image rat image rat rat
| PutText image string point int rat color int
| ArrowedLine image point point color int
| Circle image point int color int
| Line image point point color int

text \<open>\<open>frame.shape[:2]\<close>: drawing does not change the dimensions.\<close>

fun shape :: "image \<Rightarrow> int \<times> int" where
  "shape (Raw h w px) = (h, w)"
| "shape (Rectangle img p q c t) = shape img"
| "shape (AddWeighted src1 a src2 b g) = shape src2"
| "shape (PutText img s org font scale c t) = shape img"
| "shape (ArrowedLine img p q c t) = shape img"
| "shape (Circle img p r c t) = shape img"
| "shape (Line img p q c t) = shape img"

text \<open>The texts put on a frame, oldest first, each with its colour and thickness.\<close>

fun put_texts :: "image \<Rightarrow> (string \<times> color \<times> int) list" where
  "put_texts (Raw h w px) = []"
| "put_texts (Rectangle img p q c t) = put_texts img"
| "put_texts (AddWeighted src1 a src2 b g) = put_texts src2"
| "put_texts (PutText img s org font scale c t) = put_texts img @ [(s, c, t)]"
| "put_texts (ArrowedLine img p q c t) = put_texts img"
| "put_texts (Circle img p r c t) = put_texts img"
| "put_texts (Line img p q c t) = put_texts img"

text \<open>The arrows, circles and lines drawn on a frame, oldest first.\<close>

datatype geometry =
  Arrow point point color int
| Ring point int color int
| Segment point point color int

fun geometry_of :: "image \<Rightarrow> geometry list" where
  "geometry_of (Raw h w px) = []"
| "geometry_of (Rectangle img p q c t) = geometry_of img"
| "geometry_of (AddWeighted src1 a src2 b g) = geometry_of src2"
| "geometry_of (PutText img s org font scale c t) = geometry_of img"
| "geometry_of (ArrowedLine img p q c t) = geometry_of img @ [Arrow p q c t]"
| "geometry_of (Circle img p r c t) = geometry_of img @ [Ring p r c t]"
| "geometry_of (Line img p q c t) = geometry_of img @ [Segment p q c t]"

text \<open>
  \<open>cv2.getTextSize(text, font, scale, thickness)[0]\<close> is a function of OpenCV's font tables;
  it is a parameter of the drawing operations.
\<close>

type_synonym text_size_fn = "string \<Rightarrow> int \<Rightarrow> rat \<Rightarrow> int \<Rightarrow> int \<times> int"

definition FONT_HERSHEY_DUPLEX :: int where
  "FONT_HERSHEY_DUPLEX = 2"

subsection \<open>The visualizer\<close>

record event_visualizer =
  banner_height :: int
  banner_font :: int
  banner_font_scale :: rat
  banner_thickness :: int
  arrow_thickness :: int
  active_pass_events :: "pass_event list"

definition init :: event_visualizer where
  "init = \<lparr> banner_height = 120, banner_font = FONT_HERSHEY_DUPLEX,
            banner_font_scale = 3 / 2, banner_thickness = 3, arrow_thickness = 3,
            active_pass_events = [] \<rparr>"

definition draw_event_banner ::
  "event_visualizer \<Rightarrow> text_size_fn \<Rightarrow> image \<Rightarrow> string \<Rightarrow> color \<Rightarrow> image" where
  "draw_event_banner self getTextSize frame text color =
     (let w = snd (shape frame);
          overlay = Rectangle frame (0, 0) (w, banner_height self) (0, 0, 0) (- 1);
          frame1 = AddWeighted overlay (7 / 10) frame (3 / 10) 0;
          text_size = getTextSize text (banner_font self) (banner_font_scale self)
                        (banner_thickness self);
          text_x = (w - fst text_size) div 2;
          text_y = (banner_height self + snd text_size) div 2;
          frame2 = PutText frame1 text (text_x, text_y) (banner_font self)
                     (banner_font_scale self) (0, 0, 0) (banner_thickness self + 2)
      in PutText frame2 text (text_x, text_y) (banner_font self)
           (banner_font_scale self) color (banner_thickness self))"

definition int_pos :: "rat \<times> rat \<Rightarrow> point" where
  "int_pos p = (py_int (fst p), py_int (snd p))"

definition pass_banner_text :: "pass_event \<Rightarrow> string" where
  "pass_banner_text event =
     ''PASS IN PROGRESS: Player '' @ str_int (passer_id event) @ '' '' @ arrow_char
       @ '' Player '' @ str_opt (receiver_id event)"

text \<open>
  \<open>draw_pass_event\<close>: the passer is looked up first; the receiver only when
  \<open>event.receiver_id\<close> is truthy, and then the row of \<open>end_frame\<close> is subscripted before
  the membership test. The arrow-head points computed in the source are never drawn;
  only \<open>cv2.arrowedLine\<close> reaches the frame.
\<close>

definition draw_pass_event ::
  "event_visualizer \<Rightarrow> text_size_fn \<Rightarrow> image \<Rightarrow> pass_event \<Rightarrow> players_table \<Rightarrow> error + image" where
  "draw_pass_event self getTextSize frame event players =
     (case lookup_player players (start_frame event) (passer_id event) of
        Inl e \<Rightarrow> Inl e
      | Inr passer \<Rightarrow>
          (if truthy (receiver_id event) then
             (case lookup_frame players (end_frame event) of
                Inl e \<Rightarrow> Inl e
              | Inr row \<Rightarrow>
                  (case row (the (receiver_id event)) of
                     None \<Rightarrow>
                       Inr (draw_event_banner self getTextSize frame
                              (pass_banner_text event) (0, 255, 0))
                   | Some receiver \<Rightarrow>
                       Inr (draw_event_banner self getTextSize
                              (ArrowedLine frame (int_pos (position passer))
                                 (int_pos (position receiver)) (0, 255, 0) (arrow_thickness self))
                              (pass_banner_text event) (0, 255, 0))))
           else Inr (draw_event_banner self getTextSize frame
                       (pass_banner_text event) (0, 255, 0))))"

definition pressure_banner_text :: "pressure_event \<Rightarrow> string" where
  "pressure_banner_text event =
     ''PRESSURE: Player '' @ str_int (pressuring_player_id event) @ '' on Player ''
       @ str_int (pressured_player_id event)"

text \<open>
  Line 87: \<open>(0, int(255 * (1 - i)), int(255 * i))\<close> on the double \<open>i\<close>; the difference and
  the two products are double operations, and \<open>int\<close> of an infinite product raises.
\<close>

definition intensity_color :: "rat \<Rightarrow> error + color" where
  "intensity_color intensity =
     (let i = to_double intensity
      in case float_to_int (to_double (255 * to_double (1 - i))) of
           Inl e \<Rightarrow> Inl e
         | Inr green \<Rightarrow>
             (case float_to_int (to_double (255 * i)) of
                Inl e \<Rightarrow> Inl e
              | Inr red \<Rightarrow> Inr (0, green, red)))"

text \<open>
  Line 83: \<open>int(40 + 10 * pulse)\<close>, where \<open>pulse\<close> is the value of
  \<open>np.sin(cv2.getTickCount() * 0.0001)\<close> at the time of the call, a double between -1 and 1
  that the caller's clock and numpy's sine determine; it is an input of the operation.
\<close>

definition pulse_radius :: "rat \<Rightarrow> int" where
  "pulse_radius pulse = py_int (to_double (40 + to_double (10 * to_double pulse)))"

text \<open>
  \<open>draw_pressure_event\<close>: both players are looked up first; the circle is drawn before the
  colour of the line is computed.
\<close>

definition draw_pressure_event ::
  "event_visualizer \<Rightarrow> text_size_fn \<Rightarrow> rat \<Rightarrow> image \<Rightarrow> pressure_event \<Rightarrow> players_table
     \<Rightarrow> error + image" where
  "draw_pressure_event self getTextSize pulse frame event players =
     (case lookup_player players (start_frame event) (pressured_player_id event) of
        Inl e \<Rightarrow> Inl e
      | Inr pressured \<Rightarrow>
          (case lookup_player players (start_frame event) (pressuring_player_id event) of
             Inl e \<Rightarrow> Inl e
           | Inr pressuring \<Rightarrow>
               (let start_pos = int_pos (position pressuring);
                    end_pos = int_pos (position pressured);
                    frame1 = Circle frame end_pos (pulse_radius pulse) (0, 0, 255) 2
                in case intensity_color (pressure_intensity event) of
                     Inl e \<Rightarrow> Inl e
                   | Inr color \<Rightarrow>
                       Inr (draw_event_banner self getTextSize
                              (Line frame1 start_pos end_pos color (arrow_thickness self))
                              (pressure_banner_text event) (0, 0, 255)))))"

definition possession_banner_text :: "possession_change_event \<Rightarrow> string" where
  "possession_banner_text event =
     ''POSSESSION CHANGE: Team '' @ str_int (previous_team event) @ '' '' @ arrow_char
       @ '' Team '' @ str_int (new_team event)"

definition draw_possession_change ::
  "event_visualizer \<Rightarrow> text_size_fn \<Rightarrow> image \<Rightarrow> possession_change_event \<Rightarrow> image" where
  "draw_possession_change self getTextSize frame event =
     draw_event_banner self getTextSize frame (possession_banner_text event) (255, 165, 0)"

subsection \<open>The per-frame driver \<open>draw_events\<close>\<close>

text \<open>Line 102: the tracked passes that have not ended before \<open>frame_num\<close>.\<close>

definition prune :: "int \<Rightarrow> pass_event list \<Rightarrow> pass_event list" where
  "prune frame_num active = filter (\<lambda>e. end_frame e \<ge> frame_num) active"

text \<open>Lines 105-107: the loop appending every pass of \<open>events\<close>.\<close>

fun absorb :: "event list \<Rightarrow> pass_event list \<Rightarrow> pass_event list" where
  "absorb [] active = active"
| "absorb (PassEvent p # events) active = absorb events (active @ [p])"
| "absorb (PressureEvent p # events) active = absorb events active"
| "absorb (PossessionChangeEvent p # events) active = absorb events active"

text \<open>
  Line 112: true division of two Python integers. A zero divisor raises
  \<open>ZeroDivisionError\<close>; otherwise the result is the double nearest to the exact quotient,
  and \<open>OverflowError\<close> is raised when that is too large for a double.
\<close>

definition progress :: "int \<Rightarrow> pass_event \<Rightarrow> error + rat" where
  "progress frame_num pass_event =
     (if end_frame pass_event - start_frame pass_event = 0 then Inl ZeroDivisionError
      else (let q = to_double (rat_of_int (frame_num - start_frame pass_event)
                                 / rat_of_int (end_frame pass_event - start_frame pass_event))
            in if overflows q then Inl OverflowError else Inr q))"

text \<open>Lines 111-118: the loop over the tracked passes.\<close>

fun draw_pass_banners ::
  "event_visualizer \<Rightarrow> text_size_fn \<Rightarrow> int \<Rightarrow> pass_event list \<Rightarrow> image \<Rightarrow> error + image" where
  "draw_pass_banners self getTextSize frame_num [] frame = Inr frame"
| "draw_pass_banners self getTextSize frame_num (pass_event # rest) frame =
     (case progress frame_num pass_event of
        Inl e \<Rightarrow> Inl e
      | Inr pr \<Rightarrow>
          (if 0 \<le> pr \<and> pr \<le> 1 then
             draw_pass_banners self getTextSize frame_num rest
               (draw_event_banner self getTextSize frame (description pass_event) (0, 128, 0))
           else draw_pass_banners self getTextSize frame_num rest frame))"

text \<open>Lines 121-133: the loop over \<open>events\<close> for the other two kinds.\<close>

fun draw_other_banners ::
  "event_visualizer \<Rightarrow> text_size_fn \<Rightarrow> event list \<Rightarrow> image \<Rightarrow> image" where
  "draw_other_banners self getTextSize [] frame = frame"
| "draw_other_banners self getTextSize (PressureEvent e # events) frame =
     draw_other_banners self getTextSize events
       (draw_event_banner self getTextSize frame (description e) (255, 0, 0))"
| "draw_other_banners self getTextSize (PossessionChangeEvent e # events) frame =
     draw_other_banners self getTextSize events
       (draw_event_banner self getTextSize frame (description e) (0, 0, 255))"
| "draw_other_banners self getTextSize (PassEvent e # events) frame =
     draw_other_banners self getTextSize events frame"

text \<open>
  \<open>draw_events\<close> returns the instance with its updated \<open>active_pass_events\<close> (assigned
  before anything can raise, so the update survives an exception) and the frame or the
  exception.
\<close>

definition draw_events ::
  "event_visualizer \<Rightarrow> text_size_fn \<Rightarrow> image \<Rightarrow> event list \<Rightarrow> int \<Rightarrow> players_table
     \<Rightarrow> event_visualizer \<times> (error + image)" where
  "draw_events self getTextSize frame events frame_num players =
     (let self1 = self\<lparr>active_pass_events := prune frame_num (active_pass_events self)\<rparr>;
          self2 = self1\<lparr>active_pass_events := absorb events (active_pass_events self1)\<rparr>
      in (self2,
          (case draw_pass_banners self2 getTextSize frame_num (active_pass_events self2) frame of
             Inl e \<Rightarrow> Inl e
           | Inr frame1 \<Rightarrow> Inr (draw_other_banners self2 getTextSize events frame1))))"

text \<open>A sequence of calls on one instance: each call is (frame, events, frame number, table).\<close>

type_synonym call = "image \<times> event list \<times> int \<times> players_table"

definition call_frame_num :: "call \<Rightarrow> int" where
  "call_frame_num c = fst (snd (snd c))"

definition call_events :: "call \<Rightarrow> event list" where
  "call_events c = fst (snd c)"

definition after_call :: "text_size_fn \<Rightarrow> event_visualizer \<Rightarrow> call \<Rightarrow> event_visualizer" where
  "after_call getTextSize self c =
     fst (draw_events self getTextSize (fst c) (call_events c) (call_frame_num c)
            (snd (snd (snd c))))"

text \<open>The instance as it is after each call of the sequence, in order.\<close>

fun states_after :: "text_size_fn \<Rightarrow> event_visualizer \<Rightarrow> call list \<Rightarrow> event_visualizer list" where
  "states_after getTextSize self [] = []"
| "states_after getTextSize self (c # cs) =
     after_call getTextSize self c # states_after getTextSize (after_call getTextSize self c) cs"

subsection \<open>Notions of the specification\<close>

text \<open>The passes of an input list, in input order.\<close>

fun passes_of :: "event list \<Rightarrow> pass_event list" where
  "passes_of [] = []"
| "passes_of (PassEvent p # events) = p # passes_of events"
| "passes_of (PressureEvent p # events) = passes_of events"
| "passes_of (PossessionChangeEvent p # events) = passes_of events"

text \<open>What one banner adds to the texts of a frame: the black outline, then the fill.\<close>

definition banner_texts ::
  "event_visualizer \<Rightarrow> string \<Rightarrow> color \<Rightarrow> (string \<times> color \<times> int) list" where
  "banner_texts self text color =
     [(text, (0, 0, 0), banner_thickness self + 2), (text, color, banner_thickness self)]"

text \<open>A player has an entry in the table at a frame.\<close>

definition has_entry :: "players_table \<Rightarrow> int \<Rightarrow> int \<Rightarrow> bool" where
  "has_entry players f pid = (case players f of None \<Rightarrow> False | Some row \<Rightarrow> row pid \<noteq> None)"

text \<open>The receiver of a pass is named and has an entry at \<open>end_frame\<close>.\<close>

definition receiver_resolvable :: "players_table \<Rightarrow> pass_event \<Rightarrow> bool" where
  "receiver_resolvable players event =
     (case receiver_id event of None \<Rightarrow> False | Some r \<Rightarrow> has_entry players (end_frame event) r)"

text \<open>The texts of one banner: the text is put twice, the outline and then the fill.\<close>

definition banner_strings :: "string \<Rightarrow> string list" where
  "banner_strings text = [text, text]"

text \<open>The banner texts the driver puts for an event that is not a pass.\<close>

fun other_banner_strings :: "event \<Rightarrow> string list" where
  "other_banner_strings (PassEvent e) = []"
| "other_banner_strings (PressureEvent e) = banner_strings (description e)"
| "other_banner_strings (PossessionChangeEvent e) = banner_strings (description e)"

text \<open>The test of line 113 on the progress of a pass succeeds.\<close>

definition in_progress :: "int \<Rightarrow> pass_event \<Rightarrow> bool" where
  "in_progress frame_num p =
     (case progress frame_num p of Inl e \<Rightarrow> False | Inr v \<Rightarrow> 0 \<le> v \<and> v \<le> 1)"

subsection \<open>Concrete inputs\<close>

text \<open>A text measure standing in for OpenCV's, a 1280 by 720 frame and some events.\<close>

definition sample_text_size :: text_size_fn where
  "sample_text_size text font scale thickness = (20 * int (length text), 22)"

definition sample_frame :: image where
  "sample_frame = Raw 720 1280 []"

definition pass_10_20 :: pass_event where
  "pass_10_20 = \<lparr> start_frame = 10, end_frame = 20, description = ''Pass 7 to 9'',
                   passer_id = 7, receiver_id = Some 9 \<rparr>"

definition pass_5_5 :: pass_event where
  "pass_5_5 = \<lparr> start_frame = 5, end_frame = 5, description = ''Pass 1 to 2'',
                 passer_id = 1, receiver_id = Some 2 \<rparr>"

definition calls_10_15_25 :: "call list" where
  "calls_10_15_25 = [(sample_frame, [PassEvent pass_10_20], 10, Map.empty),
                     (sample_frame, [], 15, Map.empty),
                     (sample_frame, [], 25, Map.empty)]"

definition calls_10_30 :: "call list" where
  "calls_10_30 = [(sample_frame, [PassEvent pass_10_20], 10, Map.empty),
                  (sample_frame, [PassEvent pass_10_20], 30, Map.empty)]"

definition sample_players :: players_table where
  "sample_players =
     [10 \<mapsto> [7 \<mapsto> \<lparr> position = (100, 200) \<rparr>, 9 \<mapsto> \<lparr> position = (400, 250) \<rparr>],
      20 \<mapsto> [0 \<mapsto> \<lparr> position = (300, 300) \<rparr>, 9 \<mapsto> \<lparr> position = (640, 360) \<rparr>]]"

definition players_frame_10_only :: players_table where
  "players_frame_10_only = [10 \<mapsto> [7 \<mapsto> \<lparr> position = (100, 200) \<rparr>]]"

definition pass_to_nobody :: pass_event where
  "pass_to_nobody = \<lparr> start_frame = 10, end_frame = 20, description = ''Pass 7'',
                       passer_id = 7, receiver_id = None \<rparr>"

definition pass_to_zero :: pass_event where
  "pass_to_zero = \<lparr> start_frame = 10, end_frame = 20, description = ''Pass 7 to 0'',
                     passer_id = 7, receiver_id = Some 0 \<rparr>"

definition pass_to_absent :: pass_event where
  "pass_to_absent = \<lparr> start_frame = 10, end_frame = 20, description = ''Pass 7 to 4'',
                     passer_id = 7, receiver_id = Some 4 \<rparr>"

definition pass_from_absent :: pass_event where
  "pass_from_absent = \<lparr> start_frame = 10, end_frame = 20, description = ''Pass 5 to 9'',
                     passer_id = 5, receiver_id = Some 9 \<rparr>"

definition pressure_9_on_7 :: pressure_event where
  "pressure_9_on_7 = \<lparr> start_frame = 10, end_frame = 10, description = ''Pressure 9 on 7'',
                        pressuring_player_id = 9, pressured_player_id = 7,
                        pressure_intensity = 9 / 10 \<rparr>"

definition pressure_4_on_7 :: pressure_event where
  "pressure_4_on_7 = \<lparr> start_frame = 10, end_frame = 10, description = ''Pressure 4 on 7'',
                        pressuring_player_id = 4, pressured_player_id = 7,
                        pressure_intensity = 1 / 2 \<rparr>"

definition possession_1_to_2 :: possession_change_event where
  "possession_1_to_2 = \<lparr> start_frame = 10, end_frame = 10, description = ''Possession 1 to 2'',
                          previous_team = 1, new_team = 2 \<rparr>"

section \<open>Properties\<close>

subsection \<open>Rounding to a double\<close>

lemma exponent_bounds:
  assumes "0 < a"
  shows "2 powi (exponent a) \<le> a \<and> a < 2 powi (exponent a + 1)"
proof (cases "1 \<le> a")
  case True
  let ?n = "\<lfloor>a\<rfloor>"
  have n: "0 < ?n" using True by linarith
  from bitlen_bounds [OF n] have lo: "2 ^ nat (bitlen ?n - 1) \<le> ?n" and hi: "?n < 2 ^ nat (bitlen ?n)"
    by simp_all
  have b1: "1 \<le> bitlen ?n" using n by (simp add: bitlen_alt_def)
  have e: "exponent a = bitlen ?n - 1" using True by (simp add: exponent_def)
  have "rat_of_int (2 ^ nat (bitlen ?n - 1)) \<le> rat_of_int ?n" using lo by (simp only: of_int_le_iff)
  also have "\<dots> \<le> a" by simp
  finally have A: "2 powi (exponent a) \<le> a" using b1 by (simp add: e power_int_def)
  have "?n + 1 \<le> 2 ^ nat (bitlen ?n)" using hi by simp
  then have "rat_of_int (?n + 1) \<le> rat_of_int (2 ^ nat (bitlen ?n))" by (simp only: of_int_le_iff)
  moreover have "a < rat_of_int (?n + 1)" by linarith
  ultimately have "a < rat_of_int (2 ^ nat (bitlen ?n))" by linarith
  then have B: "a < 2 powi (exponent a + 1)" using b1 by (simp add: e power_int_def)
  from A B show ?thesis ..
next
  case False
  let ?b = "1 / a"
  let ?m = "\<lceil>?b\<rceil> - 1"
  have b: "1 < ?b" using False assms by simp
  have m: "0 < ?m" using b by linarith
  have mb: "rat_of_int ?m < ?b" "?b \<le> rat_of_int ?m + 1" by linarith+
  from bitlen_bounds [OF m] have lo: "2 ^ nat (bitlen ?m - 1) \<le> ?m" and hi: "?m < 2 ^ nat (bitlen ?m)"
    by simp_all
  have k1: "1 \<le> bitlen ?m" using m by (simp add: bitlen_alt_def)
  have e: "exponent a = - bitlen ?m" using False by (simp add: exponent_def)
  have "?m + 1 \<le> 2 ^ nat (bitlen ?m)" using hi by simp
  then have "rat_of_int (?m + 1) \<le> rat_of_int (2 ^ nat (bitlen ?m))" by (simp only: of_int_le_iff)
  moreover have "rat_of_int (?m + 1) = rat_of_int ?m + 1" by simp
  moreover have "rat_of_int (2 ^ nat (bitlen ?m)) = 2 ^ nat (bitlen ?m)" by simp
  ultimately have ub: "?b \<le> 2 ^ nat (bitlen ?m)" using mb(2) by linarith
  have "rat_of_int (2 ^ nat (bitlen ?m - 1)) \<le> rat_of_int ?m" using lo by (simp only: of_int_le_iff)
  moreover have "rat_of_int (2 ^ nat (bitlen ?m - 1)) = 2 ^ nat (bitlen ?m - 1)" by simp
  ultimately have lb: "2 ^ nat (bitlen ?m - 1) < ?b" using mb(1) by linarith
  have A: "2 powi (exponent a) \<le> a"
  proof -
    have "1 / 2 ^ nat (bitlen ?m) \<le> a"
      using ub assms by (simp add: field_simps)
    moreover have "(2::rat) powi (- bitlen ?m) = 1 / 2 ^ nat (bitlen ?m)"
      using k1 by (simp add: power_int_def field_simps)
    ultimately show ?thesis by (simp add: e)
  qed
  have B: "a < 2 powi (exponent a + 1)"
  proof -
    have "a < 1 / 2 ^ nat (bitlen ?m - 1)"
      using lb assms by (simp add: field_simps)
    moreover have "(2::rat) powi (- bitlen ?m + 1) = 1 / 2 ^ nat (bitlen ?m - 1)"
    proof -
      have "- bitlen ?m + 1 = - (bitlen ?m - 1)" by simp
      moreover have "(2::rat) powi (- (bitlen ?m - 1)) = 1 / 2 ^ nat (bitlen ?m - 1)"
        using k1 by (simp only: power_int_minus_divide) (simp add: power_int_def)
      ultimately show ?thesis by simp
    qed
    ultimately show ?thesis by (simp add: e)
  qed
  from A B show ?thesis ..
qed

lemma exponent_le:
  assumes "0 < a" and "a \<le> 2 powi k"
  shows "exponent a \<le> k"
proof (rule ccontr)
  assume "\<not> exponent a \<le> k"
  then have "k + 1 \<le> exponent a" by simp
  then have "(2::rat) powi (k + 1) \<le> 2 powi (exponent a)"
    by (intro power_int_increasing) simp_all
  also have "\<dots> \<le> a" using exponent_bounds [OF assms(1)] by simp
  finally have "(2::rat) powi (k + 1) \<le> 2 powi k" using assms(2) by simp
  moreover have "(2::rat) powi k < 2 powi (k + 1)"
    by (intro power_int_strict_increasing) simp_all
  ultimately show False by simp
qed

lemma overflows_iff: "overflows y \<longleftrightarrow> 2 ^ 1024 \<le> \<bar>y\<bar>"
proof (cases "y = 0")
  case True
  then show ?thesis by (simp add: overflows_def)
next
  case False
  then have pos: "0 < \<bar>y\<bar>" by simp
  have p: "(2::rat) powi 1024 = 2 ^ 1024" by simp
  show ?thesis
  proof
    assume "overflows y"
    then have "1024 \<le> exponent \<bar>y\<bar>" by (simp add: overflows_def)
    then have "(2::rat) powi 1024 \<le> 2 powi (exponent \<bar>y\<bar>)"
      by (intro power_int_increasing) simp_all
    also have "\<dots> \<le> \<bar>y\<bar>" using exponent_bounds [OF pos] by simp
    finally show "2 ^ 1024 \<le> \<bar>y\<bar>" by (simp only: p)
  next
    assume a: "2 ^ 1024 \<le> \<bar>y\<bar>"
    have "1024 \<le> exponent \<bar>y\<bar>"
    proof (rule ccontr)
      assume "\<not> 1024 \<le> exponent \<bar>y\<bar>"
      then have "exponent \<bar>y\<bar> + 1 \<le> 1024" by simp
      then have "(2::rat) powi (exponent \<bar>y\<bar> + 1) \<le> 2 powi 1024"
        by (intro power_int_increasing) simp_all
      with exponent_bounds [OF pos] have "\<bar>y\<bar> < 2 powi 1024" by linarith
      then have "\<bar>y\<bar> < 2 ^ 1024" by (simp only: p)
      with a show False by linarith
    qed
    with False show "overflows y" by (simp add: overflows_def)
  qed
qed

lemma round_half_even_error: "\<bar>rat_of_int (round_half_even x) - x\<bar> \<le> 1 / 2"
proof -
  have "rat_of_int \<lfloor>x\<rfloor> \<le> x" "x < rat_of_int \<lfloor>x\<rfloor> + 1" by linarith+
  then show ?thesis
    by (auto simp: round_half_even_def Let_def)
qed

lemma round_half_even_nonneg: "0 \<le> x \<Longrightarrow> 0 \<le> round_half_even x"
proof -
  assume "0 \<le> x"
  then have "0 \<le> \<lfloor>x\<rfloor>" by simp
  then show ?thesis by (auto simp: round_half_even_def Let_def)
qed

lemma to_double_nonneg: "0 \<le> x \<Longrightarrow> 0 \<le> to_double x"
  by (auto simp: to_double_def Let_def sgn_if intro!: mult_nonneg_nonneg round_half_even_nonneg)

lemma to_double_error:
  assumes "x \<noteq> 0"
  shows "\<bar>to_double x - x\<bar> \<le> 2 powi (max (exponent \<bar>x\<bar>) (- 1022) - 53)"
proof -
  let ?e = "max (exponent \<bar>x\<bar>) (- 1022)"
  let ?u = "(2::rat) powi (?e - 52)"
  let ?m = "rat_of_int (round_half_even (\<bar>x\<bar> / ?u))"
  have u: "0 < ?u" by simp
  have td: "to_double x = sgn x * ?m * ?u"
    using assms by (simp add: to_double_def Let_def)
  have "to_double x - x = sgn x * (?m * ?u - \<bar>x\<bar>)"
    by (simp add: td algebra_simps sgn_if)
  then have "\<bar>to_double x - x\<bar> = \<bar>?m * ?u - \<bar>x\<bar>\<bar>"
    using assms by (simp add: abs_mult sgn_if)
  also have "?m * ?u - \<bar>x\<bar> = (?m - \<bar>x\<bar> / ?u) * ?u"
    using u by (simp add: field_simps)
  also have "\<bar>(?m - \<bar>x\<bar> / ?u) * ?u\<bar> = \<bar>?m - \<bar>x\<bar> / ?u\<bar> * ?u"
    using u by (simp add: abs_mult)
  also have "\<dots> \<le> (1 / 2) * ?u"
    using round_half_even_error [of "\<bar>x\<bar> / ?u"] u by (intro mult_right_mono) simp_all
  also have "(1 / 2) * ?u = 2 powi (?e - 53)"
  proof -
    have "(2::rat) powi ((?e - 53) + 1) = 2 powi (?e - 53) * 2"
      by (rule power_int_add_1) simp
    moreover have "(?e - 53) + 1 = ?e - 52" by simp
    ultimately have "?u = 2 powi (?e - 53) * 2" by simp
    then show ?thesis by simp
  qed
  finally show ?thesis .
qed

lemma to_double_error_small:
  assumes "0 \<le> x" and "x \<le> 256"
  shows "\<bar>to_double x - x\<bar> \<le> 1 / 2 ^ 45"
proof (cases "x = 0")
  case True
  then show ?thesis by (simp add: to_double_def)
next
  case False
  with assms have pos: "0 < \<bar>x\<bar>" and le: "\<bar>x\<bar> \<le> 2 powi 8" by simp_all
  have "exponent \<bar>x\<bar> \<le> 8" by (rule exponent_le [OF pos le])
  then have "max (exponent \<bar>x\<bar>) (- 1022) - 53 \<le> - 45" by simp
  then have "(2::rat) powi (max (exponent \<bar>x\<bar>) (- 1022) - 53) \<le> 2 powi (- 45)"
    by (intro power_int_increasing) simp_all
  also have "(2::rat) powi (- 45) = 1 / 2 ^ 45" by (simp add: power_int_minus_divide)
  finally show ?thesis using to_double_error [OF False] by linarith
qed

lemma not_overflows_small: "\<bar>y\<bar> \<le> 1024 \<Longrightarrow> \<not> overflows y"
proof -
  assume a: "\<bar>y\<bar> \<le> 1024"
  have "(1024::rat) < 2 ^ 1024"
  proof -
    have "(2::rat) ^ 10 < 2 ^ 1024" by (rule power_strict_increasing) simp_all
    then show ?thesis by simp
  qed
  with a show ?thesis by (simp add: overflows_iff)
qed

lemma to_double_0 [simp]: "to_double 0 = 0"
  by (simp add: to_double_def)

lemma not_overflows_0 [simp]: "\<not> overflows 0"
  by (simp add: overflows_def)

lemma to_double_half: "to_double (1 / 2) = 1 / 2"
  by code_simp

lemma not_overflows_half: "\<not> overflows (1 / 2)"
  by code_simp

lemma progress_15_10_20: "progress 15 pass_10_20 = Inr (1 / 2)"
  by (simp add: progress_def pass_10_20_def to_double_half not_overflows_half)

lemma intensity_color_9_10: "intensity_color (9 / 10) = Inr (0, 25, 229)"
  by code_simp

lemma pulse_radius_0: "pulse_radius 0 = 40"
  by code_simp

subsection \<open>Auxiliary facts\<close>

lemma absorb_append: "absorb events active = active @ passes_of events"
  by (induction events active rule: absorb.induct) simp_all

lemma passes_of_mem: "p \<in> set (passes_of events) \<longleftrightarrow> PassEvent p \<in> set events"
  by (induction events rule: passes_of.induct) auto

lemma active_after_draw_events:
  "active_pass_events (fst (draw_events self g frame events f players))
     = prune f (active_pass_events self) @ passes_of events"
  by (simp add: draw_events_def Let_def absorb_append)

lemma put_texts_banner:
  "put_texts (draw_event_banner self g frame text color)
     = put_texts frame @ banner_texts self text color"
  by (simp add: draw_event_banner_def Let_def banner_texts_def)

lemma geometry_of_banner:
  "geometry_of (draw_event_banner self g frame text color) = geometry_of frame"
  by (simp add: draw_event_banner_def Let_def)

lemma progress_degenerate:
  "start_frame p = end_frame p \<Longrightarrow> progress f p = Inl ZeroDivisionError"
  by (simp add: progress_def)

lemma progress_cases:
  "progress f p = Inl ZeroDivisionError \<or> progress f p = Inl OverflowError
     \<or> (\<exists>v. progress f p = Inr v)"
  by (simp add: progress_def Let_def)

lemma draw_pass_banners_raises:
  "\<exists>p \<in> set active. start_frame p = end_frame p \<Longrightarrow>
     \<exists>e. draw_pass_banners self g f active frame = Inl e"
proof (induction active arbitrary: frame)
  case Nil
  then show ?case by simp
next
  case (Cons q active)
  show ?case
  proof (cases "progress f q")
    case (Inl e)
    then show ?thesis by simp
  next
    case (Inr v)
    then have "start_frame q \<noteq> end_frame q" by (auto simp: progress_degenerate)
    with Cons.prems have "\<exists>p \<in> set active. start_frame p = end_frame p" by auto
    from Cons.IH [OF this] Inr show ?thesis by simp
  qed
qed

lemma draw_pass_banners_zero_division:
  "\<exists>p \<in> set active. start_frame p = end_frame p \<Longrightarrow>
   \<forall>q \<in> set active. progress f q \<noteq> Inl OverflowError \<Longrightarrow>
     draw_pass_banners self g f active frame = Inl ZeroDivisionError"
proof (induction active arbitrary: frame)
  case Nil
  then show ?case by simp
next
  case (Cons q active)
  from progress_cases [of f q] Cons.prems(2)
  consider "progress f q = Inl ZeroDivisionError" | v where "progress f q = Inr v" by auto
  then show ?case
  proof cases
    case 1
    then show ?thesis by simp
  next
    case 2
    then have "start_frame q \<noteq> end_frame q" by (auto simp: progress_degenerate)
    with Cons.prems have "\<exists>p \<in> set active. start_frame p = end_frame p"
      "\<forall>q \<in> set active. progress f q \<noteq> Inl OverflowError" by auto
    from Cons.IH [OF this] 2 show ?thesis by simp
  qed
qed

lemma draw_pass_banners_ok:
  "\<forall>p \<in> set active. \<exists>v. progress f p = Inr v \<Longrightarrow>
     draw_pass_banners self g f active frame =
       Inr (fold (\<lambda>p fr. draw_event_banner self g fr (description p) (0, 128, 0))
              (filter (in_progress f) active) frame)"
  by (induction active arbitrary: frame) (auto simp: in_progress_def)

subsection \<open>Degenerate pass windows\<close>

text \<open>
  C1 (the code raises where the specification asks for a special case). A pass with
  \<open>start_frame = end_frame\<close> that is supplied to \<open>draw_events\<close> makes the call raise, at
  every frame number: the division of line 112 has no guard, no banner is drawn and no
  frame is returned. The exception is \<open>ZeroDivisionError\<close> unless the quotient of a pass
  tracked before it is too large for a float.
\<close>

theorem degenerate_pass_raises:
  assumes "PassEvent p \<in> set events" and "start_frame p = end_frame p"
  shows "(\<exists>e. snd (draw_events self g frame events f players) = Inl e)
       \<and> ((\<forall>q \<in> set (prune f (active_pass_events self) @ passes_of events).
             progress f q \<noteq> Inl OverflowError)
          \<longrightarrow> snd (draw_events self g frame events f players) = Inl ZeroDivisionError)"
proof -
  let ?active = "prune f (active_pass_events self) @ passes_of events"
  let ?self2 = "self\<lparr>active_pass_events := ?active\<rparr>"
  have res: "snd (draw_events self g frame events f players)
               = (case draw_pass_banners ?self2 g f ?active frame of
                    Inl e \<Rightarrow> Inl e
                  | Inr frame1 \<Rightarrow> Inr (draw_other_banners ?self2 g events frame1))"
    by (simp add: draw_events_def Let_def absorb_append split: sum.split)
  have "p \<in> set ?active"
    using assms(1) by (simp add: passes_of_mem)
  then have deg: "\<exists>q \<in> set ?active. start_frame q = end_frame q"
    using assms(2) by blast
  from draw_pass_banners_raises [OF deg] obtain e
    where "draw_pass_banners ?self2 g f ?active frame = Inl e" by blast
  then have first: "\<exists>e. snd (draw_events self g frame events f players) = Inl e"
    by (simp add: res)
  have second: "snd (draw_events self g frame events f players) = Inl ZeroDivisionError"
    if "\<forall>q \<in> set ?active. progress f q \<noteq> Inl OverflowError"
    using draw_pass_banners_zero_division [OF deg that] by (simp add: res)
  from first second show ?thesis by blast
qed

theorem degenerate_pass_raises_witness:
  "PassEvent pass_5_5 \<in> set [PassEvent pass_5_5]
   \<and> start_frame pass_5_5 = end_frame pass_5_5
   \<and> progress 5 pass_5_5 = Inl ZeroDivisionError
   \<and> snd (draw_events init sample_text_size sample_frame [PassEvent pass_5_5] 5 Map.empty)
       = Inl ZeroDivisionError"
  using degenerate_pass_raises [of pass_5_5 "[PassEvent pass_5_5]" init sample_text_size
          sample_frame 5 Map.empty]
  by (simp add: pass_5_5_def prune_def init_def progress_def)

subsection \<open>Membership of a pass in \<open>active_pass_events\<close> over a sequence of calls\<close>

lemma active_after_call:
  "active_pass_events (after_call g self c)
     = prune (call_frame_num c) (active_pass_events self) @ passes_of (call_events c)"
  by (simp add: after_call_def active_after_draw_events)

lemma states_after_nth:
  "i < length cs \<Longrightarrow> \<exists>s. states_after g self cs ! i = after_call g s (cs ! i)"
proof (induction cs arbitrary: self i)
  case Nil
  then show ?case by simp
next
  case (Cons c cs)
  show ?case
  proof (cases i)
    case 0
    then show ?thesis by auto
  next
    case (Suc j)
    with Cons.prems have "j < length cs" by simp
    from Cons.IH [OF this] Suc show ?thesis by simp
  qed
qed

lemma retained_while_in_window:
  "p \<in> set (active_pass_events self) \<Longrightarrow> sorted (map call_frame_num cs) \<Longrightarrow>
   i < length cs \<Longrightarrow> call_frame_num (cs ! i) \<le> end_frame p \<Longrightarrow>
   p \<in> set (active_pass_events (states_after g self cs ! i))"
proof (induction cs arbitrary: self i)
  case Nil
  then show ?case by simp
next
  case (Cons c cs)
  have le: "call_frame_num c \<le> call_frame_num ((c # cs) ! i)"
  proof (cases i)
    case 0
    then show ?thesis by simp
  next
    case (Suc j)
    with Cons.prems(3) have "cs ! j \<in> set cs" by simp
    with Cons.prems(2) Suc show ?thesis by auto
  qed
  with Cons.prems(4) have "call_frame_num c \<le> end_frame p" by linarith
  with Cons.prems(1) have kept: "p \<in> set (active_pass_events (after_call g self c))"
    by (simp add: active_after_call prune_def)
  show ?case
  proof (cases i)
    case 0
    with kept show ?thesis by simp
  next
    case (Suc j)
    with Cons.prems have "j < length cs" "sorted (map call_frame_num cs)"
      "call_frame_num (cs ! j) \<le> end_frame p" by simp_all
    from Cons.IH [OF kept this(2) this(1) this(3)] Suc show ?thesis by simp
  qed
qed

text \<open>
  C2 (amended). Over calls with non-decreasing frame numbers, a pass supplied in the
  events of the first call is tracked after every call whose frame number is at most its
  \<open>end_frame\<close>; it is not tracked after a call whose frame number exceeds its \<open>end_frame\<close>
  unless that call's events supply it again; and after each call every tracked pass
  either has \<open>end_frame\<close> at least the frame number of the call or was supplied by the call.
\<close>

theorem pass_membership_over_calls:
  assumes ordered: "sorted (map call_frame_num (c # cs))"
    and supplied: "PassEvent p \<in> set (call_events c)"
    and i: "i < length (c # cs)"
  shows "(call_frame_num ((c # cs) ! i) \<le> end_frame p \<longrightarrow>
            p \<in> set (active_pass_events (states_after g self (c # cs) ! i)))
       \<and> (end_frame p < call_frame_num ((c # cs) ! i)
            \<and> PassEvent p \<notin> set (call_events ((c # cs) ! i)) \<longrightarrow>
            p \<notin> set (active_pass_events (states_after g self (c # cs) ! i)))
       \<and> (\<forall>q \<in> set (active_pass_events (states_after g self (c # cs) ! i)).
            call_frame_num ((c # cs) ! i) \<le> end_frame q
            \<or> PassEvent q \<in> set (call_events ((c # cs) ! i)))"
proof -
  let ?st = "states_after g self (c # cs) ! i"
  let ?ci = "(c # cs) ! i"
  from states_after_nth [OF i] obtain s where st: "?st = after_call g s ?ci" by blast
  have first: "p \<in> set (active_pass_events ?st)" if le: "call_frame_num ?ci \<le> end_frame p"
  proof (cases i)
    case 0
    with supplied show ?thesis by (simp add: active_after_call passes_of_mem)
  next
    case (Suc j)
    have "p \<in> set (active_pass_events (after_call g self c))"
      using supplied by (simp add: active_after_call passes_of_mem)
    moreover have "sorted (map call_frame_num cs)" using ordered by simp
    moreover have "j < length cs" using i Suc by simp
    moreover have "call_frame_num (cs ! j) \<le> end_frame p" using le Suc by simp
    ultimately have "p \<in> set (active_pass_events (states_after g (after_call g self c) cs ! j))"
      by (rule retained_while_in_window)
    with Suc show ?thesis by simp
  qed
  have second: "p \<notin> set (active_pass_events ?st)"
    if "end_frame p < call_frame_num ?ci" "PassEvent p \<notin> set (call_events ?ci)"
    unfolding st using that by (simp add: active_after_call prune_def passes_of_mem)
  have third: "\<forall>q \<in> set (active_pass_events ?st).
      call_frame_num ?ci \<le> end_frame q \<or> PassEvent q \<in> set (call_events ?ci)"
    unfolding st by (auto simp: active_after_call prune_def passes_of_mem)
  from first second third show ?thesis by blast
qed

theorem pass_membership_over_calls_witness:
  "sorted (map call_frame_num calls_10_15_25)
   \<and> PassEvent pass_10_20 \<in> set (call_events (hd calls_10_15_25))
   \<and> pass_10_20 \<in> set (active_pass_events (states_after sample_text_size init calls_10_15_25 ! 0))
   \<and> pass_10_20 \<in> set (active_pass_events (states_after sample_text_size init calls_10_15_25 ! 1))
   \<and> pass_10_20 \<notin> set (active_pass_events (states_after sample_text_size init calls_10_15_25 ! 2))"
  using pass_membership_over_calls [of "hd calls_10_15_25" "tl calls_10_15_25" pass_10_20 0
          sample_text_size init]
        pass_membership_over_calls [of "hd calls_10_15_25" "tl calls_10_15_25" pass_10_20 1
          sample_text_size init]
        pass_membership_over_calls [of "hd calls_10_15_25" "tl calls_10_15_25" pass_10_20 2
          sample_text_size init]
  by (simp add: calls_10_15_25_def call_frame_num_def call_events_def pass_10_20_def)

text \<open>
  The claim as stated fails when the pass is supplied again after its window: it is
  appended without a test of its \<open>end_frame\<close>, so it is tracked during the call at frame 30.
\<close>

theorem pass_resupplied_counterexample:
  "sorted (map call_frame_num calls_10_30)
   \<and> call_frame_num (calls_10_30 ! 0) = 10
   \<and> PassEvent pass_10_20 \<in> set (call_events (calls_10_30 ! 0))
   \<and> call_frame_num (calls_10_30 ! 1) = 30
   \<and> pass_10_20 \<in> set (active_pass_events (states_after sample_text_size init calls_10_30 ! 1))
   \<and> end_frame pass_10_20 < call_frame_num (calls_10_30 ! 1)"
  by (simp add: calls_10_30_def call_frame_num_def call_events_def active_after_call
        prune_def pass_10_20_def init_def)

subsection \<open>Progress of a pass and its banner\<close>

text \<open>
  C3 (the code breaks the claim through the unguarded division of C1). The pass
  \<open>[10, 20]\<close> has progress \<open>1/2\<close> at frame 15, inside \<open>[0, 1]\<close>, and it is tracked during
  the call; but the degenerate pass supplied before it raises at line 112, so the loop
  never reaches it and its banner is not drawn.
\<close>

theorem degenerate_pass_blocks_later_banner:
  "progress 15 pass_10_20 = Inr (1 / 2)
   \<and> in_progress 15 pass_10_20
   \<and> active_pass_events
        (fst (draw_events init sample_text_size sample_frame
                [PassEvent pass_5_5, PassEvent pass_10_20] 15 Map.empty))
       = [pass_5_5, pass_10_20]
   \<and> snd (draw_events init sample_text_size sample_frame
             [PassEvent pass_5_5, PassEvent pass_10_20] 15 Map.empty)
       = Inl ZeroDivisionError"
proof -
  have "progress 15 pass_5_5 = Inl ZeroDivisionError"
    by (simp add: progress_def pass_5_5_def)
  then show ?thesis
    by (simp add: progress_15_10_20 in_progress_def draw_events_def Let_def prune_def init_def)
qed

subsection \<open>Absorbing the passes of a call\<close>

text \<open>
  C7. After a call of \<open>draw_events\<close> the tracked passes are the retained ones followed by
  every pass of the input, in input order, with no test for a pass already tracked: one
  more entry per pass of the input.
\<close>

theorem absorbed_passes_appended:
  "active_pass_events (fst (draw_events self g frame events f players))
     = prune f (active_pass_events self) @ passes_of events"
  by (simp add: draw_events_def Let_def absorb_append)

theorem absorbed_passes_appended_witness:
  "active_pass_events
     (fst (draw_events (init\<lparr>active_pass_events := [pass_10_20]\<rparr>) sample_text_size sample_frame
             [PassEvent pass_10_20, PressureEvent pressure_9_on_7, PassEvent pass_5_5] 12
             sample_players))
     = [pass_10_20, pass_10_20, pass_5_5]"
  using absorbed_passes_appended [of "init\<lparr>active_pass_events := [pass_10_20]\<rparr>" sample_text_size
          sample_frame "[PassEvent pass_10_20, PressureEvent pressure_9_on_7, PassEvent pass_5_5]"
          12 sample_players]
  by (simp add: prune_def pass_10_20_def)


subsection \<open>\<open>draw_pass_event\<close>: arrow and banner\<close>

lemma lookup_player_fails:
  "\<not> has_entry players f pid \<Longrightarrow> lookup_player players f pid = Inl LookupError"
  by (auto simp: lookup_player_def lookup_frame_def has_entry_def split: option.splits)

lemma lookup_player_cases:
  "lookup_player players f pid = Inl LookupError \<or> (\<exists>t. lookup_player players f pid = Inr t)"
  by (auto simp: lookup_player_def lookup_frame_def split: option.splits)


lemma draw_pass_event_draws_banner:
  assumes "has_entry players (start_frame event) (passer_id event)"
    and "truthy (receiver_id event) \<longrightarrow> players (end_frame event) \<noteq> None"
  shows "\<exists>out'. draw_pass_event self g frame event players = Inr out'
             \<and> put_texts out' = put_texts frame @ banner_texts self (pass_banner_text event) (0, 255, 0)"
proof -
  from assms(1) obtain passer where p: "lookup_player players (start_frame event) (passer_id event) = Inr passer"
    by (auto simp: has_entry_def lookup_player_def lookup_frame_def split: option.splits)
  show ?thesis
  proof (cases "truthy (receiver_id event)")
    case False
    then show ?thesis by (simp add: draw_pass_event_def p put_texts_banner)
  next
    case True
    with assms(2) obtain row where row: "players (end_frame event) = Some row" by auto
    show ?thesis
      using True by (cases "row (the (receiver_id event))")
        (simp_all add: draw_pass_event_def p row lookup_frame_def put_texts_banner)
  qed
qed

text \<open>
  C4 (amended). For a pass whose receiver is not resolvable (\<open>receiver_id\<close> is \<open>None\<close> or has
  no entry at \<open>end_frame\<close>), a frame returned by \<open>draw_pass_event\<close> carries no new arrow;
  and whenever the passer has an entry at \<open>start_frame\<close> and, for a truthy \<open>receiver_id\<close>,
  the table has the frame \<open>end_frame\<close>, the call returns a frame on which the green banner
  \<open>PASS IN PROGRESS: Player {passer_id} -> Player {receiver_id}\<close> has been drawn.
\<close>

theorem pass_event_arrow_and_banner:
  "((\<not> receiver_resolvable players event \<and> draw_pass_event self g frame event players = Inr out)
      \<longrightarrow> geometry_of out = geometry_of frame)
   \<and> ((has_entry players (start_frame event) (passer_id event)
        \<and> (truthy (receiver_id event) \<longrightarrow> players (end_frame event) \<noteq> None))
      \<longrightarrow> (\<exists>out'. draw_pass_event self g frame event players = Inr out'
             \<and> put_texts out' = put_texts frame @ banner_texts self (pass_banner_text event) (0, 255, 0)))"
proof (intro conjI impI)
  assume "\<not> receiver_resolvable players event \<and> draw_pass_event self g frame event players = Inr out"
  then show "geometry_of out = geometry_of frame"
    by (auto simp: draw_pass_event_def receiver_resolvable_def has_entry_def lookup_frame_def
          geometry_of_banner split: sum.splits if_splits option.splits)
next
  assume "has_entry players (start_frame event) (passer_id event)
        \<and> (truthy (receiver_id event) \<longrightarrow> players (end_frame event) \<noteq> None)"
  then show "\<exists>out'. draw_pass_event self g frame event players = Inr out'
             \<and> put_texts out' = put_texts frame @ banner_texts self (pass_banner_text event) (0, 255, 0)"
    using draw_pass_event_draws_banner [of players event self g frame] by blast
qed

theorem pass_event_arrow_and_banner_witness:
  "\<not> receiver_resolvable sample_players pass_to_nobody
   \<and> has_entry sample_players (start_frame pass_to_nobody) (passer_id pass_to_nobody)
   \<and> \<not> truthy (receiver_id pass_to_nobody)
   \<and> draw_pass_event init sample_text_size sample_frame pass_to_nobody sample_players
       = Inr (draw_event_banner init sample_text_size sample_frame
                (''PASS IN PROGRESS: Player 7 '' @ arrow_char @ '' Player None'') (0, 255, 0))
   \<and> geometry_of (draw_event_banner init sample_text_size sample_frame
                (''PASS IN PROGRESS: Player 7 '' @ arrow_char @ '' Player None'') (0, 255, 0)) = []
   \<and> put_texts (draw_event_banner init sample_text_size sample_frame
                (''PASS IN PROGRESS: Player 7 '' @ arrow_char @ '' Player None'') (0, 255, 0))
       = [(''PASS IN PROGRESS: Player 7 '' @ arrow_char @ '' Player None'', (0, 0, 0), 5),
          (''PASS IN PROGRESS: Player 7 '' @ arrow_char @ '' Player None'', (0, 255, 0), 3)]"
  using pass_event_arrow_and_banner [of sample_players pass_to_nobody init sample_text_size
          sample_frame "draw_event_banner init sample_text_size sample_frame
                (''PASS IN PROGRESS: Player 7 '' @ arrow_char @ '' Player None'') (0, 255, 0)"]
  by (simp add: receiver_resolvable_def has_entry_def sample_players_def pass_to_nobody_def
        draw_pass_event_def lookup_player_def lookup_frame_def pass_banner_text_def str_int_def
        str_nat.simps digit_char_def geometry_of_banner put_texts_banner banner_texts_def
        sample_frame_def init_def)

text \<open>
  The banner is not drawn for every pass: with the passer present, a receiver named and
  the frame \<open>end_frame\<close> missing from the table, line 41 raises before the banner.
\<close>

theorem pass_event_missing_frame_counterexample:
  "has_entry players_frame_10_only (start_frame pass_10_20) (passer_id pass_10_20)
   \<and> receiver_id pass_10_20 = Some 9
   \<and> \<not> has_entry players_frame_10_only (end_frame pass_10_20) 9
   \<and> draw_pass_event init sample_text_size sample_frame pass_10_20 players_frame_10_only
       = Inl LookupError"
  by (simp add: has_entry_def players_frame_10_only_def pass_10_20_def draw_pass_event_def
        lookup_player_def lookup_frame_def)


subsection \<open>\<open>draw_pressure_event\<close>: the colour of the line\<close>

lemma shift_lower:
  fixes T D G eps tol :: rat
  assumes "255 * T - 1 - eps < G" and "1 - D - eps \<le> T" and "256 * eps \<le> tol"
  shows "255 * (1 - D) - 1 - tol < G"
  using assms by (simp add: algebra_simps)

lemma shift_upper:
  fixes T D G eps tol :: rat
  assumes "G \<le> 255 * T + eps" and "T \<le> 1 - D + eps" and "256 * eps \<le> tol"
  shows "G \<le> 255 * (1 - D) + tol"
  using assms by (simp add: algebra_simps)

lemma channel_bounds:
  assumes "0 \<le> x" and "x \<le> 1 + 1 / 2 ^ 45"
  shows "\<exists>n. float_to_int (to_double (255 * x)) = Inr n
           \<and> 255 * x - 1 - 1 / 2 ^ 45 < rat_of_int n \<and> rat_of_int n \<le> 255 * x + 1 / 2 ^ 45"
proof -
  define eps where "eps = (1::rat) / 2 ^ 45"
  have eps: "0 < eps" "255 * eps \<le> 1" by (simp_all add: eps_def)
  let ?y = "to_double (255 * x)"
  have x: "x \<le> 1 + eps" using assms(2) by (simp add: eps_def)
  have range: "0 \<le> 255 * x" "255 * x \<le> 256" using assms(1) x eps by linarith+
  have err: "\<bar>?y - 255 * x\<bar> \<le> eps"
    using to_double_error_small [OF range] by (simp add: eps_def)
  then have y_lo: "255 * x - eps \<le> ?y" and y_hi: "?y \<le> 255 * x + eps"
    by (simp_all add: abs_diff_le_iff)
  have nonneg: "0 \<le> ?y" by (rule to_double_nonneg [OF range(1)])
  have "\<bar>?y\<bar> \<le> 1024" using y_hi nonneg range eps by linarith
  then have fin: "\<not> overflows ?y" by (rule not_overflows_small)
  have val: "float_to_int ?y = Inr \<lfloor>?y\<rfloor>"
    using fin nonneg by (simp add: float_to_int_def py_int_def)
  have "rat_of_int \<lfloor>?y\<rfloor> \<le> ?y" "?y < rat_of_int \<lfloor>?y\<rfloor> + 1" by linarith+
  with y_lo y_hi have "255 * x - 1 - eps < rat_of_int \<lfloor>?y\<rfloor>"
    "rat_of_int \<lfloor>?y\<rfloor> \<le> 255 * x + eps" by linarith+
  with val show ?thesis unfolding eps_def by blast
qed

text \<open>
  C5. When both players are found, \<open>draw_pressure_event\<close> draws the circle and then the
  line from the pressuring to the pressured player in the colour of line 87,
  \<open>(0, int(255 * (1 - i)), int(255 * i))\<close> (blue, green, red) in double arithmetic: pure
  green at intensity 0, pure red at 1, equal green and red at \<open>1/2\<close>; and for every
  intensity \<open>i\<close> in \<open>[0, 1]\<close> the green and red channels are the linear values
  \<open>255 * (1 - i)\<close> and \<open>255 * i\<close> truncated to integers, up to the rounding of the doubles.
\<close>

theorem pressure_line_color:
  "((lookup_player players (start_frame event) (pressured_player_id event) = Inr pressured
      \<and> lookup_player players (start_frame event) (pressuring_player_id event) = Inr pressuring
      \<and> intensity_color (pressure_intensity event) = Inr color)
     \<longrightarrow> (\<exists>out. draw_pressure_event self g pulse frame event players = Inr out
            \<and> geometry_of out = geometry_of frame @
                [Ring (int_pos (position pressured)) (pulse_radius pulse) (0, 0, 255) 2,
                 Segment (int_pos (position pressuring)) (int_pos (position pressured))
                   color (arrow_thickness self)]))
   \<and> intensity_color 0 = Inr (0, 255, 0)
   \<and> intensity_color 1 = Inr (0, 0, 255)
   \<and> intensity_color (1 / 2) = Inr (0, 127, 127)
   \<and> ((0 \<le> to_double i \<and> to_double i \<le> 1) \<longrightarrow>
        (\<exists>green red. intensity_color i = Inr (0, green, red)
           \<and> 255 * (1 - to_double i) - 1 - 1 / 2 ^ 36 < rat_of_int green
           \<and> rat_of_int green \<le> 255 * (1 - to_double i) + 1 / 2 ^ 36
           \<and> 255 * to_double i - 1 - 1 / 2 ^ 36 < rat_of_int red
           \<and> rat_of_int red \<le> 255 * to_double i + 1 / 2 ^ 36))"
proof (intro conjI impI)
  assume "lookup_player players (start_frame event) (pressured_player_id event) = Inr pressured
      \<and> lookup_player players (start_frame event) (pressuring_player_id event) = Inr pressuring
      \<and> intensity_color (pressure_intensity event) = Inr color"
  then show "\<exists>out. draw_pressure_event self g pulse frame event players = Inr out
            \<and> geometry_of out = geometry_of frame @
                [Ring (int_pos (position pressured)) (pulse_radius pulse) (0, 0, 255) 2,
                 Segment (int_pos (position pressuring)) (int_pos (position pressured))
                   color (arrow_thickness self)]"
    by (simp add: draw_pressure_event_def Let_def geometry_of_banner)
next
  show "intensity_color 0 = Inr (0, 255, 0)" by code_simp
next
  show "intensity_color 1 = Inr (0, 0, 255)" by code_simp
next
  show "intensity_color (1 / 2) = Inr (0, 127, 127)" by code_simp
next
  assume i: "0 \<le> to_double i \<and> to_double i \<le> 1"
  define eps where "eps = (1::rat) / 2 ^ 45"
  define tol where "tol = (1::rat) / 2 ^ 36"
  have eps: "0 < eps" "256 * eps \<le> tol" by (simp_all add: eps_def tol_def)
  let ?d = "to_double i"
  let ?t = "to_double (1 - ?d)"
  have d1: "0 \<le> 1 - ?d" "1 - ?d \<le> 256" using i by simp_all
  have t_err: "\<bar>?t - (1 - ?d)\<bar> \<le> eps"
    using to_double_error_small [OF d1] by (simp add: eps_def)
  then have t_lo: "1 - ?d - eps \<le> ?t" and t_hi: "?t \<le> 1 - ?d + eps"
    by (simp_all add: abs_diff_le_iff)
  have t_nonneg: "0 \<le> ?t" by (rule to_double_nonneg [OF d1(1)])
  have t_le: "?t \<le> 1 + 1 / 2 ^ 45" using t_hi i unfolding eps_def by linarith
  from channel_bounds [OF t_nonneg t_le] obtain green where
    green: "float_to_int (to_double (255 * ?t)) = Inr green"
    and g_lo: "255 * ?t - 1 - eps < rat_of_int green"
    and g_hi: "rat_of_int green \<le> 255 * ?t + eps" unfolding eps_def by blast
  have d_le: "?d \<le> 1 + 1 / 2 ^ 45" using i by simp
  from channel_bounds [of ?d, OF _ d_le] i obtain red where
    red: "float_to_int (to_double (255 * ?d)) = Inr red"
    and r_lo: "255 * ?d - 1 - eps < rat_of_int red"
    and r_hi: "rat_of_int red \<le> 255 * ?d + eps" unfolding eps_def by blast
  have col: "intensity_color i = Inr (0, green, red)"
    by (simp add: intensity_color_def Let_def green red)
  have "255 * (1 - ?d) - 1 - tol < rat_of_int green"
    by (rule shift_lower [OF g_lo t_lo eps(2)])
  moreover have "rat_of_int green \<le> 255 * (1 - ?d) + tol"
    by (rule shift_upper [OF g_hi t_hi eps(2)])
  moreover have "255 * ?d - 1 - tol < rat_of_int red" using r_lo eps by linarith
  moreover have "rat_of_int red \<le> 255 * ?d + tol" using r_hi eps by linarith
  ultimately show "\<exists>green red. intensity_color i = Inr (0, green, red)
           \<and> 255 * (1 - to_double i) - 1 - 1 / 2 ^ 36 < rat_of_int green
           \<and> rat_of_int green \<le> 255 * (1 - to_double i) + 1 / 2 ^ 36
           \<and> 255 * to_double i - 1 - 1 / 2 ^ 36 < rat_of_int red
           \<and> rat_of_int red \<le> 255 * to_double i + 1 / 2 ^ 36"
    using col unfolding tol_def by blast
qed

lemma to_double_9_10_range: "0 \<le> to_double (9 / 10) \<and> to_double (9 / 10) \<le> 1"
  by code_simp

theorem pressure_line_color_witness:
  "lookup_player sample_players (start_frame pressure_9_on_7) (pressured_player_id pressure_9_on_7)
     = Inr \<lparr> position = (100, 200) \<rparr>
   \<and> lookup_player sample_players (start_frame pressure_9_on_7) (pressuring_player_id pressure_9_on_7)
     = Inr \<lparr> position = (400, 250) \<rparr>
   \<and> intensity_color (pressure_intensity pressure_9_on_7) = Inr (0, 25, 229)
   \<and> map_sum id geometry_of
        (draw_pressure_event init sample_text_size 0 sample_frame pressure_9_on_7 sample_players)
       = Inr [Ring (100, 200) 40 (0, 0, 255) 2, Segment (400, 250) (100, 200) (0, 25, 229) 3]
   \<and> 0 \<le> to_double (9 / 10) \<and> to_double (9 / 10) \<le> 1"
  using pressure_line_color [of sample_players pressure_9_on_7 "\<lparr> position = (100, 200) \<rparr>"
          "\<lparr> position = (400, 250) \<rparr>" "(0, 25, 229)" init sample_text_size 0 sample_frame
          "9 / 10"]
        to_double_9_10_range intensity_color_9_10
  by (auto simp: sample_players_def pressure_9_on_7_def lookup_player_def lookup_frame_def
        int_pos_def py_int_def pulse_radius_0 init_def sample_frame_def)

subsection \<open>What the driver draws for pressure and possession-change events\<close>

lemma texts_of_banner:
  "map fst (put_texts (draw_event_banner self g frame text color))
     = map fst (put_texts frame) @ banner_strings text"
  by (simp add: put_texts_banner banner_texts_def banner_strings_def)

lemma texts_of_fold_banner:
  "map fst (put_texts (fold (\<lambda>p fr. draw_event_banner self g fr (description p) c) ps frame))
     = map fst (put_texts frame) @ concat (map (\<lambda>p. banner_strings (description p)) ps)"
  by (induction ps arbitrary: frame) (simp_all add: texts_of_banner)

lemma geometry_of_fold_banner:
  "geometry_of (fold (\<lambda>p fr. draw_event_banner self g fr (description p) c) ps frame)
     = geometry_of frame"
  by (induction ps arbitrary: frame) (simp_all add: geometry_of_banner)

lemma texts_of_other_banners:
  "map fst (put_texts (draw_other_banners self g events frame))
     = map fst (put_texts frame) @ concat (map other_banner_strings events)"
  by (induction self g events frame rule: draw_other_banners.induct)
     (simp_all add: texts_of_banner)

lemma geometry_of_other_banners:
  "geometry_of (draw_other_banners self g events frame) = geometry_of frame"
  by (induction self g events frame rule: draw_other_banners.induct)
     (simp_all add: geometry_of_banner)

text \<open>
  C6 (amended). In a call of \<open>draw_events\<close> in which line 112 raises for no tracked pass,
  the driver draws, for every pressure or possession-change event of the input and in
  input order, that event's banner (the text \<open>event.description\<close>) after the banners of
  the passes in progress, whatever the tracked passes are; it draws no line, circle or
  arrow for any event, and the returned frame does not depend on the tracking table.
\<close>

theorem other_events_banner_only:
  assumes "\<forall>p \<in> set (prune f (active_pass_events self) @ passes_of events).
             \<exists>v. progress f p = Inr v"
  shows "\<exists>out. snd (draw_events self g frame events f players) = Inr out
           \<and> geometry_of out = geometry_of frame
           \<and> map fst (put_texts out) = map fst (put_texts frame)
               @ concat (map (\<lambda>p. banner_strings (description p))
                           (filter (in_progress f)
                              (prune f (active_pass_events self) @ passes_of events)))
               @ concat (map other_banner_strings events)"
proof -
  let ?active = "prune f (active_pass_events self) @ passes_of events"
  let ?self2 = "self\<lparr>active_pass_events := ?active\<rparr>"
  let ?mid = "fold (\<lambda>p fr. draw_event_banner ?self2 g fr (description p) (0, 128, 0))
                (filter (in_progress f) ?active) frame"
  have loop: "draw_pass_banners ?self2 g f ?active frame = Inr ?mid"
    by (rule draw_pass_banners_ok [OF assms])
  have result: "snd (draw_events self g frame events f players)
                  = Inr (draw_other_banners ?self2 g events ?mid)"
    by (simp add: draw_events_def Let_def absorb_append loop)
  show ?thesis
    unfolding result
    by (simp add: geometry_of_other_banners geometry_of_fold_banner texts_of_other_banners
          texts_of_fold_banner)
qed

lemma progress_10_10_20: "progress 10 pass_10_20 = Inr 0"
  by (simp add: progress_def pass_10_20_def)

theorem other_events_banner_only_witness:
  "progress 10 pass_10_20 = Inr 0
   \<and> map_sum id (map fst \<circ> put_texts)
       (snd (draw_events init sample_text_size sample_frame
               [PressureEvent pressure_9_on_7, PossessionChangeEvent possession_1_to_2,
                PassEvent pass_10_20] 10 sample_players))
     = Inr [''Pass 7 to 9'', ''Pass 7 to 9'', ''Pressure 9 on 7'', ''Pressure 9 on 7'',
            ''Possession 1 to 2'', ''Possession 1 to 2'']
   \<and> map_sum id geometry_of
       (snd (draw_events init sample_text_size sample_frame
               [PressureEvent pressure_9_on_7, PossessionChangeEvent possession_1_to_2,
                PassEvent pass_10_20] 10 sample_players))
     = Inr []"
  using other_events_banner_only [of 10 init
          "[PressureEvent pressure_9_on_7, PossessionChangeEvent possession_1_to_2,
            PassEvent pass_10_20]"
          sample_text_size sample_frame sample_players]
        progress_10_10_20
  by (auto simp: prune_def init_def in_progress_def banner_strings_def sample_frame_def
        pass_10_20_def pressure_9_on_7_def possession_1_to_2_def)

text \<open>
  The driver does not draw the geometry of a pressure event: on the same input
  \<open>draw_pressure_event\<close> draws a circle and a line, \<open>draw_events\<close> neither.
\<close>

theorem pressure_geometry_counterexample:
  "map_sum id geometry_of
     (snd (draw_events init sample_text_size sample_frame [PressureEvent pressure_9_on_7] 10
             sample_players))
     = Inr []
   \<and> map_sum id geometry_of
       (draw_pressure_event init sample_text_size 0 sample_frame pressure_9_on_7 sample_players)
     = Inr [Ring (100, 200) 40 (0, 0, 255) 2, Segment (400, 250) (100, 200) (0, 25, 229) 3]"
  using intensity_color_9_10
  by (simp add: draw_events_def Let_def prune_def init_def geometry_of_banner
        draw_pressure_event_def sample_players_def pressure_9_on_7_def lookup_player_def
        lookup_frame_def int_pos_def py_int_def pulse_radius_0 sample_frame_def)

subsection \<open>Unguarded lookups\<close>

text \<open>
  C8 (amended). A passer without an entry at \<open>start_frame\<close> makes \<open>draw_pass_event\<close> raise
  the lookup error, and so does either pressure participant without an entry for
  \<open>draw_pressure_event\<close>. Of the receiver lookup only the membership in the row of
  \<open>end_frame\<close> is guarded: a receiver missing from an existing row is skipped and the call
  returns a frame, but for a truthy \<open>receiver_id\<close> a table without a row for \<open>end_frame\<close>
  makes the call raise the lookup error as well.
\<close>

theorem unguarded_lookups_raise:
  "(\<not> has_entry players (start_frame pass) (passer_id pass)
      \<longrightarrow> draw_pass_event self g frame pass players = Inl LookupError)
   \<and> ((\<not> has_entry players (start_frame pressure) (pressured_player_id pressure)
        \<or> \<not> has_entry players (start_frame pressure) (pressuring_player_id pressure))
      \<longrightarrow> draw_pressure_event self g pulse frame pressure players = Inl LookupError)
   \<and> ((has_entry players (start_frame pass) (passer_id pass)
        \<and> players (end_frame pass) \<noteq> None
        \<and> \<not> receiver_resolvable players pass)
      \<longrightarrow> (\<exists>out. draw_pass_event self g frame pass players = Inr out))
   \<and> ((has_entry players (start_frame pass) (passer_id pass)
        \<and> truthy (receiver_id pass)
        \<and> players (end_frame pass) = None)
      \<longrightarrow> draw_pass_event self g frame pass players = Inl LookupError)"
proof (intro conjI impI)
  assume "\<not> has_entry players (start_frame pass) (passer_id pass)"
  then show "draw_pass_event self g frame pass players = Inl LookupError"
    by (simp add: draw_pass_event_def lookup_player_fails)
next
  assume "\<not> has_entry players (start_frame pressure) (pressured_player_id pressure)
        \<or> \<not> has_entry players (start_frame pressure) (pressuring_player_id pressure)"
  then show "draw_pressure_event self g pulse frame pressure players = Inl LookupError"
    using lookup_player_cases [of players "start_frame pressure" "pressured_player_id pressure"]
    by (auto simp: draw_pressure_event_def lookup_player_fails)
next
  assume a: "has_entry players (start_frame pass) (passer_id pass)
        \<and> players (end_frame pass) \<noteq> None
        \<and> \<not> receiver_resolvable players pass"
  then have "truthy (receiver_id pass) \<longrightarrow> players (end_frame pass) \<noteq> None" by simp
  with a draw_pass_event_draws_banner [of players pass self g frame]
  show "\<exists>out. draw_pass_event self g frame pass players = Inr out" by blast
next
  assume a: "has_entry players (start_frame pass) (passer_id pass)
        \<and> truthy (receiver_id pass)
        \<and> players (end_frame pass) = None"
  then obtain passer where "lookup_player players (start_frame pass) (passer_id pass) = Inr passer"
    by (auto simp: has_entry_def lookup_player_def lookup_frame_def split: option.splits)
  with a show "draw_pass_event self g frame pass players = Inl LookupError"
    by (simp add: draw_pass_event_def lookup_frame_def)
qed

theorem unguarded_lookups_raise_witness:
  "\<not> has_entry sample_players (start_frame pass_from_absent) (passer_id pass_from_absent)
   \<and> draw_pass_event init sample_text_size sample_frame pass_from_absent sample_players
       = Inl LookupError
   \<and> \<not> has_entry sample_players (start_frame pressure_4_on_7) (pressuring_player_id pressure_4_on_7)
   \<and> draw_pressure_event init sample_text_size 0 sample_frame pressure_4_on_7 sample_players
       = Inl LookupError
   \<and> has_entry sample_players (start_frame pass_to_absent) (passer_id pass_to_absent)
   \<and> sample_players (end_frame pass_to_absent) \<noteq> None
   \<and> \<not> receiver_resolvable sample_players pass_to_absent
   \<and> draw_pass_event init sample_text_size sample_frame pass_to_absent sample_players
       = Inr (draw_event_banner init sample_text_size sample_frame
                (pass_banner_text pass_to_absent) (0, 255, 0))
   \<and> has_entry players_frame_10_only (start_frame pass_10_20) (passer_id pass_10_20)
   \<and> truthy (receiver_id pass_10_20)
   \<and> players_frame_10_only (end_frame pass_10_20) = None
   \<and> draw_pass_event init sample_text_size sample_frame pass_10_20 players_frame_10_only
       = Inl LookupError"
  using unguarded_lookups_raise [of sample_players pass_from_absent init sample_text_size
          sample_frame pressure_4_on_7 0]
        unguarded_lookups_raise [of sample_players pass_to_absent init sample_text_size
          sample_frame pressure_4_on_7 0]
        unguarded_lookups_raise [of players_frame_10_only pass_10_20 init sample_text_size
          sample_frame pressure_4_on_7 0]
  by (simp add: has_entry_def receiver_resolvable_def sample_players_def pass_from_absent_def
        pass_to_absent_def pressure_4_on_7_def pass_10_20_def players_frame_10_only_def
        draw_pass_event_def lookup_player_def lookup_frame_def)

text \<open>
  The receiver lookup is not guarded against every absence: the passer is present, the
  receiver has no entry at \<open>end_frame\<close> because the table has no row for that frame, and
  the call raises instead of skipping the arrow.
\<close>

theorem receiver_row_unguarded_counterexample:
  "has_entry players_frame_10_only (start_frame pass_to_absent) (passer_id pass_to_absent)
   \<and> receiver_id pass_to_absent = Some 4
   \<and> \<not> has_entry players_frame_10_only (end_frame pass_to_absent) 4
   \<and> draw_pass_event init sample_text_size sample_frame pass_to_absent players_frame_10_only
       = Inl LookupError"
  by (simp add: has_entry_def players_frame_10_only_def pass_to_absent_def draw_pass_event_def
        lookup_player_def lookup_frame_def)

subsection \<open>A falsy receiver identifier\<close>

text \<open>
  C10. The identifier 0 is falsy; for a pass whose \<open>receiver_id\<close> is falsy (\<open>None\<close> or 0)
  and whose passer is found, \<open>draw_pass_event\<close> returns the frame with the banner only and
  no arrow, whatever the table holds at \<open>end_frame\<close>.
\<close>

theorem falsy_receiver_no_arrow:
  "\<not> truthy (Some 0)
   \<and> ((\<not> truthy (receiver_id event)
        \<and> lookup_player players (start_frame event) (passer_id event) = Inr passer)
      \<longrightarrow> draw_pass_event self g frame event players
            = Inr (draw_event_banner self g frame (pass_banner_text event) (0, 255, 0))
          \<and> geometry_of (draw_event_banner self g frame (pass_banner_text event) (0, 255, 0))
            = geometry_of frame)"
  by (simp add: draw_pass_event_def geometry_of_banner)

theorem falsy_receiver_no_arrow_witness:
  "receiver_id pass_to_zero = Some 0
   \<and> has_entry sample_players (end_frame pass_to_zero) 0
   \<and> lookup_player sample_players (start_frame pass_to_zero) (passer_id pass_to_zero)
       = Inr \<lparr> position = (100, 200) \<rparr>
   \<and> draw_pass_event init sample_text_size sample_frame pass_to_zero sample_players
       = Inr (draw_event_banner init sample_text_size sample_frame
                (''PASS IN PROGRESS: Player 7 '' @ arrow_char @ '' Player 0'') (0, 255, 0))
   \<and> map_sum id geometry_of
        (draw_pass_event init sample_text_size sample_frame pass_to_zero sample_players) = Inr []
   \<and> map_sum id geometry_of
        (draw_pass_event init sample_text_size sample_frame pass_10_20 sample_players)
       = Inr [Arrow (100, 200) (640, 360) (0, 255, 0) 3]"
  using falsy_receiver_no_arrow [of pass_to_zero sample_players "\<lparr> position = (100, 200) \<rparr>"
          init sample_text_size sample_frame]
  by (simp add: has_entry_def sample_players_def pass_to_zero_def pass_10_20_def
        draw_pass_event_def lookup_player_def lookup_frame_def pass_banner_text_def str_int_def
        str_nat.simps digit_char_def geometry_of_banner sample_frame_def int_pos_def py_int_def
        init_def)

end
